theory Spec2Isabelle
  imports Main "HOL-Library.Word"
begin

section \<open>Data model of \<open>src/renderer/App.tsx\<close>\<close>

text \<open>
  \<open>interface QueryObject\<close>: three mandatory strings and three optional range
  parameters. An absent optional field (\<open>undefined\<close>) is \<open>None\<close>. The
  TypeScript type of \<open>range_unit\<close> is the literal type \<open>"day"\<close>; at run time it is
  a string that the code compares with \<open>===\<close>, so it is a string here.
  \<open>range_offset\<close> holds integral numbers only.
\<close>

record QueryObject =
  label :: string
  name :: string
  query :: string
  range_offset :: "int option"
  range_unit :: "string option"
  range_step :: "string option"

text \<open>
  Values that \<open>d3.json\<close> hands to the \<open>then\<close> callback: parsed JSON, or
  \<open>undefined\<close> (a response without content). An object is the list of its own
  properties, looked up by key. A number is held as the text that \<open>String(x)\<close>
  gives for it (\<open>1700000000\<close>, \<open>0.5\<close>, \<open>1e+21\<close>): that text determines the
  number, and the code never computes with one.
\<close>

datatype json =
  JNull
| JBool bool
| JNum string
| JStr string
| JArr "json list"
| JObj "(string \<times> json) list"

datatype jsval = Undefined | Val json

text \<open>The exceptions that occur: each carries its message.\<close>

datatype js_error =
  TypeError string
| RangeError string
| SyntaxError string
| Error string

text \<open>
  \<open>URL\<close> with its \<open>search\<close> set from a \<open>URLSearchParams\<close>: the base and the
  ordered list of name/value pairs. The percent-encoding done by \<open>toString\<close> is a
  bijection on that list and is not modelled.
\<close>

type_synonym URLSearchParams = "(string \<times> string) list"

record URL =
  base :: string
  search :: URLSearchParams

text \<open>The object literal \<open>{ query: query_object, data: ... }\<close> built by the two
  \<open>async\<close> callbacks of \<open>fetch_all_prometheus_data\<close>.\<close>

record entry =
  entry_query :: QueryObject
  entry_data :: jsval

text \<open>State of a promise.\<close>

datatype 'a promise = Pending | Fulfilled 'a | Rejected js_error

section \<open>The catalogue\<close>

text \<open>Object literals without and with the range parameters.\<close>

definition instant :: "string \<Rightarrow> string \<Rightarrow> string \<Rightarrow> QueryObject" where
  "instant l n q =
     \<lparr>label = l, name = n, query = q,
      range_offset = None, range_unit = None, range_step = None\<rparr>"

definition ranged :: "string \<Rightarrow> string \<Rightarrow> string \<Rightarrow> int \<Rightarrow> string \<Rightarrow> string \<Rightarrow> QueryObject" where
  "ranged l n q off unit step =
     \<lparr>label = l, name = n, query = q,
      range_offset = Some off, range_unit = Some unit, range_step = Some step\<rparr>"

definition queries :: "QueryObject list" where
  "queries =
    [instant ''Free CPUs (non-GPU) by location'' ''cpus_free''
       ''sum(slurm_node_cpus{state=\"free\",nodes!=\"gpu\"}) by (cluster,nodes)'',
     instant ''Allocated CPUs (non-GPU) by location'' ''cpus_allocated''
       ''sum(slurm_node_cpus{state=\"alloc\",nodes!=\"gpu\"}) by (cluster,nodes)'',
     instant ''Percent Free CPUs (non-GPU) by location'' ''cpus_percent_free''
       ''sum(slurm_node_cpus{state=\"free\",nodes!=\"gpu\"}) by (cluster,nodes) / sum(slurm_node_cpus{nodes!=\"gpu\"}) by (cluster,nodes)'',
     instant ''GPUs free by location'' ''gpus_free''
       ''sum(slurm_node_gpus{state=\"free\",nodes=\"gpu\"}) by (cluster)'',
     instant ''GPUs allocated by location'' ''gpus_allocated''
       ''sum(slurm_node_gpus{state=\"alloc\",nodes=\"gpu\"}) by (cluster)'',
     instant ''Slurm pending job requests'' ''slurm_pending_jobs''
       ''sum(slurm_job_count{state=\"pending\"}) by (account)'']"

definition range_queries :: "QueryObject list" where
  "range_queries =
    [ranged ''Rusty queue wait time over 24 hours'' ''rusty_wait_time''
       ''sum(slurm_job_seconds{cluster=\"iron\",state=\"pending\"}) by (account)''
       1 ''day'' ''15m'',
     ranged ''Rusty queue length over 24 hours'' ''rusty_queue_length''
       ''sum(slurm_job_count{state=\"pending\"}) by (account)''
       1 ''day'' ''15m'',
     ranged ''Node counts by center for the last 7 Days'' ''node_count''
       ''sum(slurm_job_nodes{state=\"running\"}) by (account)''
       7 ''day'' ''90m'']"

section \<open>Dates\<close>

text \<open>
  A \<open>Date\<close> is its time value, milliseconds since the epoch, as an integer. A valid
  date has a time value of at most 8640000000000000 in magnitude; what the
  operations put outside that range is the invalid date (\<open>TimeClip\<close> gives \<open>NaN\<close>).
\<close>

definition valid_time :: "int \<Rightarrow> bool" where
  "valid_time t \<longleftrightarrow> - 8640000000000000 \<le> t \<and> t \<le> 8640000000000000"

text \<open>
  \<open>Date.prototype.toISOString\<close> prints a valid date in UTC as
  \<open>YYYY-MM-DDTHH:mm:ss.sssZ\<close> (years outside 0..9999 with a sign and six digits)
  and throws a \<open>RangeError\<close> on the invalid date. \<open>iso_text\<close> is the printing.
\<close>

fun digits :: "nat \<Rightarrow> string" where
  "digits n =
     (if n < 10 then [''0123456789'' ! n]
      else digits (n div 10) @ [''0123456789'' ! (n mod 10)])"

declare digits.simps [simp del]

definition pad :: "nat \<Rightarrow> nat \<Rightarrow> string" where
  "pad w n = replicate (w - length (digits n)) CHR ''0'' @ digits n"

definition civil_from_days :: "int \<Rightarrow> int \<times> nat \<times> nat" where
  "civil_from_days z0 =
     (let z = z0 + 719468;
          era = z div 146097;
          doe = z mod 146097;
          yoe = (doe - doe div 1460 + doe div 36524 - doe div 146096) div 365;
          doy = doe - (365 * yoe + yoe div 4 - yoe div 100);
          mp = (5 * doy + 2) div 153;
          d = doy - (153 * mp + 2) div 5 + 1;
          m = (if mp < 10 then mp + 3 else mp - 9);
          y = yoe + era * 400 + (if m \<le> 2 then 1 else 0)
      in (y, nat m, nat d))"

definition year_string :: "int \<Rightarrow> string" where
  "year_string y =
     (if 0 \<le> y \<and> y \<le> 9999 then pad 4 (nat y)
      else (if y < 0 then ''-'' else ''+'') @ pad 6 (nat \<bar>y\<bar>))"

definition iso_text :: "int \<Rightarrow> string" where
  "iso_text t =
     (let (y, m, d) = civil_from_days (t div 86400000);
          ms = nat (t mod 86400000)
      in year_string y @ ''-'' @ pad 2 m @ ''-'' @ pad 2 d @ ''T''
         @ pad 2 (ms div 3600000) @ '':'' @ pad 2 (ms div 60000 mod 60) @ '':''
         @ pad 2 (ms div 1000 mod 60) @ ''.'' @ pad 3 (ms mod 1000) @ ''Z'')"

definition toISOString :: "int \<Rightarrow> js_error + string" where
  "toISOString t =
     (if valid_time t then Inr (iso_text t) else Inl (RangeError ''Invalid time value''))"

text \<open>
  The time zone of the machine is a function \<open>tza\<close>, the \<open>LocalTZA(t, isUTC)\<close> of
  ECMAScript: the offset of local time from UTC in milliseconds, at the UTC time
  \<open>t\<close> when \<open>isUTC\<close> holds and at the local time \<open>t\<close> otherwise (a local time that
  a clock change skips or repeats is read with the offset before the change).
\<close>

definition LocalTime :: "(int \<Rightarrow> bool \<Rightarrow> int) \<Rightarrow> int \<Rightarrow> int" where
  "LocalTime tza t = t + tza t True"

definition UTC :: "(int \<Rightarrow> bool \<Rightarrow> int) \<Rightarrow> int \<Rightarrow> int" where
  "UTC tza t = t - tza t False"

text \<open>
  \<open>d3.timeDay.offset(date, step)\<close> is \<open>date.setDate(date.getDate() + step)\<close> on a
  copy of the date, for an integral \<open>step\<close>. \<open>setDate\<close> works on the local time:
  it keeps the time within the day, moves the day number by \<open>step\<close> and converts
  the result back to UTC.
\<close>

definition d3_timeDay_offset :: "(int \<Rightarrow> bool \<Rightarrow> int) \<Rightarrow> int \<Rightarrow> int \<Rightarrow> int" where
  "d3_timeDay_offset tza date step = UTC tza (LocalTime tza date + step * 86400000)"

text \<open>In a zone whose offset from UTC never changes a day is 86400000 ms.\<close>

definition fixed_zone_day_offset :: "int \<Rightarrow> int \<Rightarrow> int" where
  "fixed_zone_day_offset date step = date + step * 86400000"

section \<open>\<open>fetch_prometheus_data\<close>: building the request\<close>

text \<open>\<open>URLSearchParams.set\<close>: the first pair of that name gets the value and the
  later ones go; a new name is appended.\<close>

fun sp_set :: "string \<Rightarrow> string \<Rightarrow> URLSearchParams \<Rightarrow> URLSearchParams" where
  "sp_set k v [] = [(k, v)]"
| "sp_set k v ((k', v') # ps) =
     (if k' = k then (k, v) # filter (\<lambda>p. fst p \<noteq> k) ps
      else (k', v') # sp_set k v ps)"

text \<open>\<open>URLSearchParams.get\<close>: the first value of that name, \<open>None\<close> for \<open>null\<close>.\<close>

definition sp_get :: "URLSearchParams \<Rightarrow> string \<Rightarrow> string option" where
  "sp_get ps k = map_of ps k"

definition query_endpoint :: string where
  "query_endpoint = ''http://prometheus.flatironinstitute.org/api/v1/query''"

definition query_range_endpoint :: string where
  "query_range_endpoint = ''http://prometheus.flatironinstitute.org/api/v1/query_range''"

text \<open>
  Lines 97 to 113 of the source, the part of \<open>fetch_prometheus_data\<close> before the
  request is sent. \<open>now\<close> is the reading of \<open>new Date()\<close>, \<open>timeDay_offset\<close> stands
  for \<open>d3.timeDay.offset\<close> (\<open>fetch_prometheus_data\<close> below passes the function of
  the machine's zone). Written out:
  \<^item> \<open>-query_object.range_offset\<close> of an absent offset is \<open>NaN\<close>; the date moved by
    \<open>NaN\<close> days is invalid and \<open>toISOString\<close> throws a \<open>RangeError\<close>;
  \<^item> \<open>start.toISOString()\<close> is called first, then \<open>end.toISOString()\<close>, and
    either may throw;
  \<^item> \<open>search_params.set("step", undefined)\<close> stores the string \<open>undefined\<close>.
\<close>

definition build_url ::
  "(int \<Rightarrow> int \<Rightarrow> int) \<Rightarrow> int \<Rightarrow> QueryObject \<Rightarrow> bool \<Rightarrow> js_error + URL" where
  "build_url timeDay_offset now query_object is_range_query =
     (let base = (if is_range_query then query_range_endpoint else query_endpoint);
          search_params = [(''query'', query query_object)]
      in if is_range_query \<and> range_unit query_object = Some ''day'' then
           (case range_offset query_object of
              None \<Rightarrow> Inl (RangeError ''Invalid time value'')
            | Some k \<Rightarrow>
                let start = timeDay_offset now (- k)
                in case toISOString start of
                     Inl err \<Rightarrow> Inl err
                   | Inr start_text \<Rightarrow>
                       (case toISOString now of
                          Inl err \<Rightarrow> Inl err
                        | Inr end_text \<Rightarrow>
                            let search_params = sp_set ''start'' start_text search_params;
                                search_params = sp_set ''end'' end_text search_params;
                                search_params = sp_set ''step''
                                  (case range_step query_object of
                                     None \<Rightarrow> ''undefined'' | Some s \<Rightarrow> s)
                                  search_params
                            in Inr \<lparr>base = base, search = search_params\<rparr>))
         else Inr \<lparr>base = base, search = search_params\<rparr>)"

section \<open>\<open>fetch_prometheus_data\<close>: handling the response\<close>

text \<open>
  Property access \<open>v.k\<close> for the names the code reads (\<open>status\<close>, \<open>data\<close>,
  \<open>result\<close>, \<open>error\<close>, none of them a property of a prototype): a
  \<open>TypeError\<close> on \<open>undefined\<close> and \<open>null\<close>, the value of the key on an object that
  has it, \<open>undefined\<close> otherwise. The messages are those of V8, the engine of
  the renderer.
\<close>

fun get_prop :: "jsval \<Rightarrow> string \<Rightarrow> js_error + jsval" where
  "get_prop Undefined k =
     Inl (TypeError (''Cannot read properties of undefined (reading ''
                      @ [CHR 0x27] @ k @ [CHR 0x27] @ '')''))"
| "get_prop (Val JNull) k =
     Inl (TypeError (''Cannot read properties of null (reading ''
                      @ [CHR 0x27] @ k @ [CHR 0x27] @ '')''))"
| "get_prop (Val (JObj ps)) k = Inr (case map_of ps k of None \<Rightarrow> Undefined | Some v \<Rightarrow> Val v)"
| "get_prop (Val v) k = Inr Undefined"

text \<open>
  The string that a template literal \<open>`${v}`\<close> inserts for a value
  (\<open>ToString\<close>), or the exception of the conversion:
  \<^item> an object that has an own \<open>toString\<close> key cannot be converted, since the
    value of the key is no function and \<open>Object.prototype.valueOf\<close> returns the
    object: a \<open>TypeError\<close>; every other object gives \<open>[object Object]\<close>;
  \<^item> an array is \<open>join(",")\<close> of its elements, \<open>null\<close> printed as the empty
    string, the elements converted from left to right.
\<close>

fun join :: "string \<Rightarrow> string list \<Rightarrow> string" where
  "join sep [] = []"
| "join sep [x] = x"
| "join sep (x # y # ys) = x @ sep @ join sep (y # ys)"

fun sequence :: "(js_error + string) list \<Rightarrow> js_error + string list" where
  "sequence [] = Inr []"
| "sequence (Inl err # rs) = Inl err"
| "sequence (Inr x # rs) = (case sequence rs of Inl err \<Rightarrow> Inl err | Inr xs \<Rightarrow> Inr (x # xs))"

fun json_string :: "json \<Rightarrow> js_error + string" where
  "json_string JNull = Inr ''null''"
| "json_string (JBool b) = Inr (if b then ''true'' else ''false'')"
| "json_string (JNum text) = Inr text"
| "json_string (JStr s) = Inr s"
| "json_string (JArr xs) =
     (case sequence (map (\<lambda>x. if x = JNull then Inr [] else json_string x) xs) of
        Inl err \<Rightarrow> Inl err
      | Inr texts \<Rightarrow> Inr (join '','' texts))"
| "json_string (JObj ps) =
     (if ''toString'' \<in> set (map fst ps)
      then Inl (TypeError ''Cannot convert object to primitive value'')
      else Inr ''[object Object]'')"

definition template_string :: "jsval \<Rightarrow> js_error + string" where
  "template_string v = (case v of Undefined \<Rightarrow> Inr ''undefined'' | Val j \<Rightarrow> json_string j)"

text \<open>The callback given to \<open>then\<close> (lines 117 to 124): it returns
  \<open>body.data.result\<close> or throws.\<close>

definition then_handler :: "jsval \<Rightarrow> js_error + jsval" where
  "then_handler body =
     (case get_prop body ''status'' of
        Inl err \<Rightarrow> Inl err
      | Inr status \<Rightarrow>
          if status = Val (JStr ''success'') then
            (case get_prop body ''data'' of
               Inl err \<Rightarrow> Inl err
             | Inr data \<Rightarrow> get_prop data ''result'')
          else
            (case get_prop body ''error'' of
               Inl err \<Rightarrow> Inl err
             | Inr error \<Rightarrow>
                 (case template_string error of
                    Inl err \<Rightarrow> Inl err
                  | Inr text \<Rightarrow> Inl (Error (''Prometheus error: '' @ text)))))"

text \<open>The callback given to \<open>catch\<close> (line 126): it prints
  \<open>Error(err.statusText)\<close> and returns what \<open>console.log\<close> returns,
  \<open>undefined\<close>.\<close>

definition catch_handler :: "js_error \<Rightarrow> jsval" where
  "catch_handler err = Undefined"

text \<open>
  The chain \<open>d3.json(url).then(...).catch(...)\<close> (lines 115 to 126), as a function
  of how the promise of \<open>d3.json\<close> settles: \<open>Inl\<close> rejected (no connection, a
  status that is not ok, a body that is not JSON), \<open>Inr\<close> fulfilled with the body.
  The chain is always fulfilled, with this value.
\<close>

definition then_catch :: "js_error + jsval \<Rightarrow> jsval" where
  "then_catch settled =
     (case settled of
        Inl err \<Rightarrow> catch_handler err
      | Inr body \<Rightarrow>
          (case then_handler body of
             Inl err \<Rightarrow> catch_handler err
           | Inr results \<Rightarrow> results))"

text \<open>
  What the code gets from outside:
  \<^item> the time zone of the machine, with offsets that fit a signed 32-bit number of
    milliseconds (real zones stay within a day of UTC);
  \<^item> the reading of the machine's clock by \<open>new Date()\<close> in the \<open>i\<close>-th call of
    \<open>fetch_prometheus_data\<close>, a signed 52-bit number of milliseconds (some 71000
    years either side of 1970, well inside the valid dates);
  \<^item> how the promise of \<open>d3.json(url)\<close> in that call settles.
\<close>

record world =
  LocalTZA :: "int \<Rightarrow> bool \<Rightarrow> 32 word"
  Date_now :: "nat \<Rightarrow> 52 word"
  d3_json :: "nat \<Rightarrow> URL \<Rightarrow> js_error + jsval"

definition zone :: "world \<Rightarrow> int \<Rightarrow> bool \<Rightarrow> int" where
  "zone w t isUTC = sint (LocalTZA w t isUTC)"

definition clock :: "world \<Rightarrow> nat \<Rightarrow> int" where
  "clock w i = sint (Date_now w i)"

definition zone_day_offset :: "world \<Rightarrow> int \<Rightarrow> int \<Rightarrow> int" where
  "zone_day_offset w = d3_timeDay_offset (zone w)"

text \<open>
  The \<open>i\<close>-th call of \<open>fetch_prometheus_data\<close>: how the promise it returns settles.
  An exception before the request rejects it (\<open>Inl\<close>); after the request the
  chain fulfils it (\<open>Inr\<close>).
\<close>

definition fetch_prometheus_data ::
  "world \<Rightarrow> nat \<Rightarrow> QueryObject \<Rightarrow> bool \<Rightarrow> js_error + jsval" where
  "fetch_prometheus_data w i query_object is_range_query =
     (case build_url (zone_day_offset w) (clock w i) query_object is_range_query of
        Inl err \<Rightarrow> Inl err
      | Inr url \<Rightarrow> Inr (then_catch (d3_json w i url)))"

section \<open>\<open>fetch_all_prometheus_data\<close>\<close>

text \<open>
  \<open>Promise.all\<close> over promises that settle as \<open>ps\<close> says, in the order \<open>sched\<close>
  (the indices of the promises, in the order of their settling). A fulfilled promise
  stores its value at its own index and the result is fulfilled once every index has
  a value; the first rejection rejects the result; while promises are missing the
  result is pending.
\<close>

fun all_loop :: "(js_error + 'a) list \<Rightarrow> nat list \<Rightarrow> 'a option list \<Rightarrow> 'a list promise" where
  "all_loop ps [] values = Pending"
| "all_loop ps (i # sched) values =
     (if i < length ps then
        (case ps ! i of
           Inl err \<Rightarrow> Rejected err
         | Inr v \<Rightarrow>
             (let values' = values[i := Some v]
              in case those values' of
                   Some vs \<Rightarrow> Fulfilled vs
                 | None \<Rightarrow> all_loop ps sched values'))
      else all_loop ps sched values)"

definition Promise_all :: "(js_error + 'a) list \<Rightarrow> nat list \<Rightarrow> 'a list promise" where
  "Promise_all ps sched =
     (if ps = [] then Fulfilled [] else all_loop ps sched (replicate (length ps) None))"

text \<open>The two \<open>async\<close> callbacks (lines 130 to 133 and 135 to 138) differ in the
  flag only.\<close>

definition fetch_entry :: "world \<Rightarrow> bool \<Rightarrow> nat \<times> QueryObject \<Rightarrow> js_error + entry" where
  "fetch_entry w is_range_query p =
     (case fetch_prometheus_data w (fst p) (snd p) is_range_query of
        Inl err \<Rightarrow> Inl err
      | Inr d \<Rightarrow> Inr \<lparr>entry_query = snd p, entry_data = d\<rparr>)"

text \<open>\<open>fetch_all_prometheus_data\<close> with the two catalogue lists as parameters; the
  calls of \<open>fetch_prometheus_data\<close> are numbered in the order in which \<open>map\<close>
  makes them.\<close>

definition fetch_all_on ::
  "QueryObject list \<Rightarrow> QueryObject list \<Rightarrow> world \<Rightarrow> nat list \<Rightarrow> entry list promise" where
  "fetch_all_on qs rqs w sched =
     (let non_range_data = map (fetch_entry w False) (enumerate 0 qs);
          range_data = map (fetch_entry w True) (enumerate (length qs) rqs)
      in Promise_all (non_range_data @ range_data) sched)"

definition fetch_all_prometheus_data :: "world \<Rightarrow> nat list \<Rightarrow> entry list promise" where
  "fetch_all_prometheus_data = fetch_all_on queries range_queries"

section \<open>\<open>App\<close>\<close>

text \<open>\<open>data_loaded_signal\<close> as a function of the value of \<open>data_signal\<close>, and that
  value after the effect of \<open>App\<close>: it starts as \<open>[]\<close> and the callback stores the
  fetched data once the promise is fulfilled.\<close>

definition data_loaded_signal :: "entry list \<Rightarrow> bool" where
  "data_loaded_signal data_signal \<longleftrightarrow> length data_signal > 0"

definition App_data_signal :: "world \<Rightarrow> nat list \<Rightarrow> entry list" where
  "App_data_signal w sched =
     (case fetch_all_prometheus_data w sched of Fulfilled data \<Rightarrow> data | _ \<Rightarrow> [])"

section \<open>Concrete inputs\<close>

text \<open>Response bodies of the query service, and a world for the examples: the
  zone UTC, a clock that ticks between the calls, and the \<open>i\<close>-th request
  settling as \<open>outcome i\<close> says.\<close>

definition error_envelope :: "string \<Rightarrow> jsval" where
  "error_envelope msg = Val (JObj [(''status'', JStr ''error''), (''error'', JStr msg)])"

definition success_envelope :: "json list \<Rightarrow> jsval" where
  "success_envelope series =
     Val (JObj [(''status'', JStr ''success''), (''data'', JObj [(''result'', JArr series)])])"

definition example_world :: "(nat \<Rightarrow> js_error + jsval) \<Rightarrow> world" where
  "example_world outcome =
     \<lparr>LocalTZA = (\<lambda>t isUTC. 0),
      Date_now = (\<lambda>i. 1700000000000 + of_nat i),
      d3_json = (\<lambda>i url. outcome i)\<rparr>"

definition sample_series :: "nat \<Rightarrow> json" where
  "sample_series i =
     JObj [(''metric'', JObj [(''cluster'', JStr ''x'')]),
           (''value'', JArr [JNum (digits i), JStr ''4''])]"

text \<open>Every request settles the same way.\<close>

definition uniform_world :: "js_error + jsval \<Rightarrow> world" where
  "uniform_world outcome = example_world (\<lambda>i. outcome)"

text \<open>Request \<open>j\<close> is answered with an error envelope, every other one with a
  success envelope of one series.\<close>

definition one_failure_world :: "nat \<Rightarrow> string \<Rightarrow> world" where
  "one_failure_world j msg =
     example_world (\<lambda>i. if i = j then Inr (error_envelope msg)
                         else Inr (success_envelope [sample_series i]))"

text \<open>The four outcomes in turn: success, no connection, an error envelope, a body
  that is not JSON.\<close>

definition mixed_world :: world where
  "mixed_world =
     example_world (\<lambda>i.
       if i mod 4 = 0 then Inr (success_envelope [sample_series i])
       else if i mod 4 = 1 then Inl (TypeError ''Failed to fetch'')
       else if i mod 4 = 2 then Inr (error_envelope ''bad query'')
       else Inl (SyntaxError ''Unexpected token < in JSON at position 0''))"



section \<open>Conditions on the inputs\<close>

text \<open>Every promise of the first \<open>n\<close> settles at some point of the schedule.\<close>

definition all_settle :: "nat \<Rightarrow> nat list \<Rightarrow> bool" where
  "all_settle n sched \<longleftrightarrow> (\<forall>i\<in>set [0..<n]. i \<in> set sched)"

text \<open>The request of the \<open>i\<close>-th call can be built for \<open>q\<close> in range mode: no
  exception before the request is sent.\<close>

definition can_build :: "world \<Rightarrow> nat \<Rightarrow> QueryObject \<Rightarrow> bool" where
  "can_build w i q \<longleftrightarrow>
     (case build_url (zone_day_offset w) (clock w i) q True of
        Inl err \<Rightarrow> False | Inr url \<Rightarrow> True)"

section \<open>Lemmas about the model\<close>

lemma those_eq_Some: "those xs = Some ys \<longleftrightarrow> xs = map Some ys"
  by (induction xs arbitrary: ys) (auto split: option.splits)

lemma those_eq_None: "those xs = None \<longleftrightarrow> None \<in> set xs"
proof (induction xs)
  case Nil
  show ?case by simp
next
  case (Cons x xs)
  then show ?case by (cases x) auto
qed

lemma all_loop_fulfilled:
  assumes "length vals = length vs"
    and "\<forall>j<length vs. vals ! j = None \<or> vals ! j = Some (vs ! j)"
    and "\<forall>j<length vs. vals ! j = None \<longrightarrow> j \<in> set sched"
    and "None \<in> set vals"
  shows "all_loop (map Inr vs) sched vals = Fulfilled vs"
  using assms
proof (induction sched arbitrary: vals)
  case Nil
  from Nil.prems(4) obtain j where "j < length vals" "vals ! j = None"
    by (metis in_set_conv_nth)
  with Nil.prems(1,3) show ?case by fastforce
next
  case (Cons i sched)
  show ?case
  proof (cases "i < length vs")
    case False
    have "\<forall>j<length vs. vals ! j = None \<longrightarrow> j \<in> set sched"
      using Cons.prems(3) False by auto
    with Cons.IH [of "vals"] Cons.prems False show ?thesis by simp
  next
    case True
    define vals' where "vals' = vals[i := Some (vs ! i)]"
    have len: "length vals' = length vs"
      using Cons.prems(1) by (simp add: vals'_def)
    have pt: "\<forall>j<length vs. vals' ! j = None \<or> vals' ! j = Some (vs ! j)"
    proof (intro allI impI)
      fix j assume j: "j < length vs"
      show "vals' ! j = None \<or> vals' ! j = Some (vs ! j)"
      proof (cases "j = i")
        case True
        then show ?thesis using j Cons.prems(1) by (simp add: vals'_def)
      next
        case False
        then show ?thesis using j Cons.prems(2) by (simp add: vals'_def)
      qed
    qed
    have step: "all_loop (map Inr vs) (i # sched) vals =
        (case those vals' of Some ws \<Rightarrow> Fulfilled ws | None \<Rightarrow> all_loop (map Inr vs) sched vals')"
      using True unfolding vals'_def by (simp add: Let_def)
    show ?thesis
    proof (cases "those vals'")
      case (Some ws)
      then have eq: "vals' = map Some ws" by (simp add: those_eq_Some)
      have "ws = vs"
      proof (rule nth_equalityI)
        show "length ws = length vs" using eq len by (metis length_map)
      next
        fix j assume "j < length ws"
        then have j: "j < length vs" using eq len by (metis length_map)
        then have "vals' ! j = Some (ws ! j)" using eq \<open>j < length ws\<close> by simp
        with pt j show "ws ! j = vs ! j" by auto
      qed
      with step Some show ?thesis by simp
    next
      case None
      then have 4: "None \<in> set vals'" by (simp add: those_eq_None)
      have 3: "\<forall>j<length vs. vals' ! j = None \<longrightarrow> j \<in> set sched"
      proof (intro allI impI)
        fix j assume j: "j < length vs" and n: "vals' ! j = None"
        then have "j \<noteq> i" using True Cons.prems(1) by (auto simp: vals'_def)
        then have "vals ! j = None" using n by (simp add: vals'_def)
        with Cons.prems(3) j \<open>j \<noteq> i\<close> show "j \<in> set sched" by auto
      qed
      from Cons.IH [OF len pt 3 4] step None show ?thesis by simp
    qed
  qed
qed

lemma Promise_all_fulfilled:
  assumes "\<forall>j<length vs. j \<in> set sched"
  shows "Promise_all (map Inr vs) sched = Fulfilled vs"
proof (cases "vs = []")
  case True
  then show ?thesis by (simp add: Promise_all_def)
next
  case False
  have "all_loop (map Inr vs) sched (replicate (length vs) None) = Fulfilled vs"
    using assms False by (intro all_loop_fulfilled) auto
  with False show ?thesis by (simp add: Promise_all_def)
qed

lemma all_loop_not_rejected: "all_loop (map Inr vs) sched vals \<noteq> Rejected e"
  by (induction sched arbitrary: vals) (auto simp: Let_def split: option.splits)

lemma Promise_all_not_rejected: "Promise_all (map Inr vs) sched \<noteq> Rejected e"
  by (simp add: Promise_all_def all_loop_not_rejected)



lemma build_url_instant:
  "build_url f now q False = Inr \<lparr>base = query_endpoint, search = [(''query'', query q)]\<rparr>"
  by (simp add: build_url_def)

lemma build_url_ok:
  assumes "r \<longrightarrow> can_build w i q"
  shows "\<exists>u. build_url (zone_day_offset w) (clock w i) q r = Inr u"
proof (cases r)
  case True
  with assms show ?thesis by (auto simp: can_build_def split: sum.splits)
next
  case False
  then show ?thesis by (simp add: build_url_instant)
qed

text \<open>The bounds of the world: every reading of the clock is a valid date, and a
  date up to a century of days from it, in any zone, is valid too.\<close>

lemma clock_bound: "\<bar>clock w i\<bar> \<le> 2251799813685248"
  using sint_ge [of "Date_now w i"] sint_lt [of "Date_now w i"]
  by (simp add: clock_def)

lemma zone_bound: "\<bar>zone w t isUTC\<bar> \<le> 2147483648"
  using sint_ge [of "LocalTZA w t isUTC"] sint_lt [of "LocalTZA w t isUTC"]
  by (simp add: zone_def)

lemma valid_clock: "valid_time (clock w i)"
  using clock_bound [of w i] unfolding valid_time_def by linarith

lemma valid_day_offset:
  assumes "\<bar>k\<bar> \<le> 36500"
  shows "valid_time (zone_day_offset w (clock w i) (- k))"
proof -
  let ?local = "clock w i + zone w (clock w i) True + - k * 86400000"
  have "zone_day_offset w (clock w i) (- k) = ?local - zone w ?local False"
    by (simp add: zone_day_offset_def d3_timeDay_offset_def UTC_def LocalTime_def)
  moreover have "\<bar>k * 86400000\<bar> \<le> 36500 * 86400000"
    using assms by (simp add: abs_mult)
  ultimately show ?thesis
    using clock_bound [of w i] zone_bound [of w "clock w i" True] zone_bound [of w ?local False]
    unfolding valid_time_def by linarith
qed

lemma small_offset_builds:
  assumes "range_offset q = Some k" and "\<bar>k\<bar> \<le> 36500"
  shows "can_build w i q"
  using assms valid_clock [of w i] valid_day_offset [OF assms(2), of w i]
  by (simp add: can_build_def build_url_def toISOString_def Let_def)

lemma fetch_entry_ok:
  assumes "r \<longrightarrow> can_build w i q"
  shows "\<exists>d. fetch_prometheus_data w i q r = Inr d \<and>
             fetch_entry w r (i, q) = Inr \<lparr>entry_query = q, entry_data = d\<rparr>"
proof -
  from build_url_ok [OF assms] obtain u
    where "build_url (zone_day_offset w) (clock w i) q r = Inr u" by blast
  then show ?thesis by (simp add: fetch_prometheus_data_def fetch_entry_def)
qed

lemma fetch_all_on_entries:
  assumes build: "\<forall>j<length rqs. can_build w (length qs + j) (rqs ! j)"
  shows "\<exists>es. map (fetch_entry w False) (enumerate 0 qs)
                @ map (fetch_entry w True) (enumerate (length qs) rqs) = map Inr es \<and>
           map entry_query es = qs @ rqs \<and>
           (\<forall>i<length es.
              fetch_prometheus_data w i (entry_query (es ! i)) (length qs \<le> i)
                = Inr (entry_data (es ! i)))"
proof -
  define ps where
    "ps = map (fetch_entry w False) (enumerate 0 qs)
          @ map (fetch_entry w True) (enumerate (length qs) rqs)"
  define all_qs where "all_qs = qs @ rqs"
  have len: "length ps = length all_qs"
    by (simp add: ps_def all_qs_def)
  have nth_ps: "ps ! i = fetch_entry w (length qs \<le> i) (i, all_qs ! i)"
    if "i < length all_qs" for i
  proof (cases "i < length qs")
    case True
    then show ?thesis
      by (simp add: ps_def all_qs_def nth_append nth_enumerate_eq)
  next
    case False
    with that have "i - length qs < length rqs" by (simp add: all_qs_def)
    with False show ?thesis
      by (simp add: ps_def all_qs_def nth_append nth_enumerate_eq)
  qed
  have ok: "\<exists>d. fetch_prometheus_data w i (all_qs ! i) (length qs \<le> i) = Inr d \<and>
                ps ! i = Inr \<lparr>entry_query = all_qs ! i, entry_data = d\<rparr>"
    if "i < length all_qs" for i
  proof -
    have "length qs \<le> i \<longrightarrow> can_build w i (all_qs ! i)"
    proof
      assume le: "length qs \<le> i"
      with that have "i - length qs < length rqs" by (simp add: all_qs_def)
      with build have "can_build w (length qs + (i - length qs)) (rqs ! (i - length qs))"
        by blast
      with le show "can_build w i (all_qs ! i)"
        by (simp add: all_qs_def nth_append)
    qed
    from fetch_entry_ok [OF this] nth_ps [OF that] show ?thesis by simp
  qed
  define es where "es = map projr ps"
  have 1: "ps = map Inr es"
  proof (rule nth_equalityI)
    show "length ps = length (map Inr es)" by (simp add: es_def)
  next
    fix i assume "i < length ps"
    with ok [of i] len show "ps ! i = map Inr es ! i" by (auto simp: es_def)
  qed
  have nth_es: "entry_query (es ! i) = all_qs ! i \<and>
      fetch_prometheus_data w i (all_qs ! i) (length qs \<le> i) = Inr (entry_data (es ! i))"
    if "i < length all_qs" for i
    using ok [OF that] that len by (auto simp: es_def)
  have 2: "map entry_query es = all_qs"
  proof (rule nth_equalityI)
    show "length (map entry_query es) = length all_qs" by (simp add: es_def len)
  next
    fix i assume "i < length (map entry_query es)"
    then have i: "i < length all_qs" by (simp add: es_def len)
    then have "map entry_query es ! i = entry_query (es ! i)" by (simp add: es_def len)
    with nth_es [OF i] show "map entry_query es ! i = all_qs ! i" by simp
  qed
  have 3: "\<forall>i<length es.
      fetch_prometheus_data w i (entry_query (es ! i)) (length qs \<le> i) = Inr (entry_data (es ! i))"
  proof (intro allI impI)
    fix i assume "i < length es"
    then have i: "i < length all_qs" by (simp add: es_def len)
    with nth_es [OF i] show
      "fetch_prometheus_data w i (entry_query (es ! i)) (length qs \<le> i) = Inr (entry_data (es ! i))"
      by simp
  qed
  from 1 2 3 show ?thesis unfolding ps_def all_qs_def by blast
qed

lemma fetch_all_on_fulfilled:
  assumes "\<forall>j<length rqs. can_build w (length qs + j) (rqs ! j)"
    and "all_settle (length qs + length rqs) sched"
  shows "\<exists>es. fetch_all_on qs rqs w sched = Fulfilled es \<and>
           map entry_query es = qs @ rqs \<and>
           (\<forall>i<length es.
              fetch_prometheus_data w i (entry_query (es ! i)) (length qs \<le> i)
                = Inr (entry_data (es ! i)))"
proof -
  from fetch_all_on_entries [OF assms(1)] obtain es where
    ps: "map (fetch_entry w False) (enumerate 0 qs)
           @ map (fetch_entry w True) (enumerate (length qs) rqs) = map Inr es"
    and qs: "map entry_query es = qs @ rqs"
    and data: "\<forall>i<length es.
      fetch_prometheus_data w i (entry_query (es ! i)) (length qs \<le> i) = Inr (entry_data (es ! i))"
    by blast
  from qs have "length es = length qs + length rqs"
    by (metis length_append length_map)
  with assms(2) have "\<forall>j<length es. j \<in> set sched"
    by (simp add: all_settle_def)
  then have "Promise_all (map Inr es) sched = Fulfilled es"
    by (rule Promise_all_fulfilled)
  with ps have "fetch_all_on qs rqs w sched = Fulfilled es"
    by (simp add: fetch_all_on_def)
  with qs data show ?thesis by blast
qed

lemma fetch_all_on_not_rejected:
  assumes "\<forall>j<length rqs. can_build w (length qs + j) (rqs ! j)"
  shows "fetch_all_on qs rqs w sched \<noteq> Rejected e"
proof -
  from fetch_all_on_entries [OF assms] obtain es where
    "map (fetch_entry w False) (enumerate 0 qs)
       @ map (fetch_entry w True) (enumerate (length qs) rqs) = map Inr es"
    by blast
  then show ?thesis
    by (simp add: fetch_all_on_def Promise_all_not_rejected)
qed

lemma catalogue_can_build:
  "\<forall>j<length range_queries. can_build w (length queries + j) (range_queries ! j)"
proof (intro allI impI)
  fix j assume "j < length range_queries"
  then have "j = 0 \<or> j = 1 \<or> j = 2"
    by (auto simp: range_queries_def)
  then have "\<exists>k. range_offset (range_queries ! j) = Some k \<and> \<bar>k\<bar> \<le> 36500"
    by (auto simp: range_queries_def ranged_def)
  then show "can_build w (length queries + j) (range_queries ! j)"
    by (auto intro: small_offset_builds)
qed

lemma catalogue_length: "length queries = 6" "length range_queries = 3"
  by (simp_all add: queries_def range_queries_def)

lemma build_url_Inr_can_build:
  assumes "build_url (zone_day_offset w) (clock w i) q True = Inr u"
  shows "can_build w i q"
  using assms by (simp add: can_build_def)

lemma then_catch_not_success:
  assumes "get_prop body ''status'' = Inr status" and "status \<noteq> Val (JStr ''success'')"
  shows "then_catch (Inr body) = Undefined"
  using assms
  by (simp add: then_catch_def then_handler_def catch_handler_def split: sum.splits)

lemma then_catch_result:
  assumes "then_handler body = Inr results"
  shows "then_catch (Inr body) = results"
  using assms by (simp add: then_catch_def)

lemma fetch_all_on_schedules:
  assumes "\<forall>j<length rqs. can_build w (length qs + j) (rqs ! j)"
  shows "\<exists>es. map entry_query es = qs @ rqs \<and>
           (\<forall>i<length es.
              fetch_prometheus_data w i (entry_query (es ! i)) (length qs \<le> i)
                = Inr (entry_data (es ! i))) \<and>
           (\<forall>sched. all_settle (length qs + length rqs) sched \<longrightarrow>
              fetch_all_on qs rqs w sched = Fulfilled es)"
proof -
  from fetch_all_on_entries [OF assms] obtain es where
    ps: "map (fetch_entry w False) (enumerate 0 qs)
           @ map (fetch_entry w True) (enumerate (length qs) rqs) = map Inr es"
    and qs: "map entry_query es = qs @ rqs"
    and data: "\<forall>i<length es.
      fetch_prometheus_data w i (entry_query (es ! i)) (length qs \<le> i) = Inr (entry_data (es ! i))"
    by blast
  from qs have len: "length es = length qs + length rqs"
    by (metis length_append length_map)
  have "fetch_all_on qs rqs w sched = Fulfilled es"
    if "all_settle (length qs + length rqs) sched" for sched
  proof -
    from that len have "\<forall>j<length es. j \<in> set sched"
      by (simp add: all_settle_def)
    then have "Promise_all (map Inr es) sched = Fulfilled es"
      by (rule Promise_all_fulfilled)
    with ps show ?thesis by (simp add: fetch_all_on_def)
  qed
  with qs data show ?thesis by blast
qed

text \<open>Evaluating a run on concrete inputs: in the example worlds a request
  that can be built settles as the world says.\<close>

lemma fetch_example_instant:
  "fetch_prometheus_data (example_world outcome) i q False = Inr (then_catch (outcome i))"
  by (simp add: fetch_prometheus_data_def build_url_instant example_world_def)

lemma fetch_example_range:
  assumes "case range_offset q of None \<Rightarrow> False | Some k \<Rightarrow> \<bar>k\<bar> \<le> 36500"
  shows "fetch_prometheus_data (example_world outcome) i q True = Inr (then_catch (outcome i))"
proof -
  from assms obtain k where "range_offset q = Some k" "\<bar>k\<bar> \<le> 36500"
    by (auto split: option.splits)
  then have "can_build (example_world outcome) i q"
    by (rule small_offset_builds)
  then obtain url where
    "build_url (zone_day_offset (example_world outcome)) (clock (example_world outcome) i) q True
       = Inr url"
    by (auto simp: can_build_def split: sum.splits)
  then show ?thesis
    by (simp add: fetch_prometheus_data_def) (simp add: example_world_def)
qed

lemmas run_defs =
  fetch_all_prometheus_data_def fetch_all_on_def fetch_entry_def
  fetch_example_instant fetch_example_range
  queries_def range_queries_def instant_def ranged_def
  error_envelope_def success_envelope_def then_catch_def then_handler_def catch_handler_def
  template_string_def Promise_all_def Let_def

lemma all_settle_9:
  "all_settle 9 [0, 1, 2, 3, 4, 5, 6, 7, 8]"
  "all_settle 9 [8, 7, 6, 5, 4, 3, 2, 1, 0]"
  "all_settle 9 [8, 3, 1, 0, 2, 7, 6, 5, 4]"
  "all_settle 9 [4, 8, 0, 2, 6, 1, 7, 3, 5]"
  by code_simp+





section \<open>The catalogue\<close>

text \<open>
  Claim C9. The names of the six instant definitions and the three range definitions
  are pairwise distinct.
\<close>

theorem catalogue_names_distinct:
  "distinct (map name (queries @ range_queries)) \<and> length queries = 6 \<and> length range_queries = 3"
  by (simp add: queries_def range_queries_def instant_def ranged_def)

section \<open>The request URL\<close>

text \<open>
  Claim C5. In instant mode the URL of any definition, with or without range
  parameters, targets the instant-query endpoint and its query string is the single
  parameter \<open>query\<close> with the raw expression: there is no \<open>start\<close>, \<open>end\<close> or
  \<open>step\<close>.
\<close>

theorem instant_url_only_query:
  "\<exists>url. build_url timeDay_offset now q False = Inr url
     \<and> base url = query_endpoint
     \<and> search url = [(''query'', query q)]
     \<and> sp_get (search url) ''start'' = None
     \<and> sp_get (search url) ''end'' = None
     \<and> sp_get (search url) ''step'' = None"
  by (simp add: build_url_def sp_get_def)




text \<open>
  Claim C3, as stated, fails: in range mode a definition whose unit is \<open>week\<close>
  raises nothing. The builder returns the URL of the range endpoint with the
  \<open>query\<close> parameter alone.
\<close>

theorem week_unit_builds_request:
  "build_url fixed_zone_day_offset 1700000000000
      ((range_queries ! 2)\<lparr>range_unit := Some ''week''\<rparr>) True
     = Inr \<lparr>base = query_range_endpoint,
            search = [(''query'', ''sum(slurm_job_nodes{state=\"running\"}) by (account)'')]\<rparr>"
  by (simp add: build_url_def range_queries_def ranged_def)

text \<open>
  Claim C3, amended. In range mode, for every definition whose \<open>range_unit\<close> is
  not \<open>day\<close> (absent included), the builder raises no error: the URL targets the
  range endpoint and its only parameter is \<open>query\<close>; \<open>start\<close>, \<open>end\<close> and
  \<open>step\<close> are left out.
\<close>

theorem other_unit_omits_window:
  assumes "range_unit q \<noteq> Some ''day''"
  shows "\<exists>url. build_url timeDay_offset now q True = Inr url
     \<and> base url = query_range_endpoint
     \<and> search url = [(''query'', query q)]
     \<and> sp_get (search url) ''start'' = None
     \<and> sp_get (search url) ''end'' = None
     \<and> sp_get (search url) ''step'' = None"
  using assms by (simp add: build_url_def sp_get_def)

text \<open>
  Witness of C3, amended: the first range definition with its unit removed.
\<close>

theorem other_unit_omits_window_witness:
  "range_unit ((range_queries ! 0)\<lparr>range_unit := None\<rparr>) \<noteq> Some ''day''
   \<and> build_url fixed_zone_day_offset 1700000000000 ((range_queries ! 0)\<lparr>range_unit := None\<rparr>) True
     = Inr \<lparr>base = query_range_endpoint,
            search = [(''query'',
              ''sum(slurm_job_seconds{cluster=\"iron\",state=\"pending\"}) by (account)'')]\<rparr>"
proof -
  let ?q = "(range_queries ! 0)\<lparr>range_unit := None\<rparr>"
  have 1: "range_unit ?q \<noteq> Some ''day''"
    by simp
  have 2: "query ?q = ''sum(slurm_job_seconds{cluster=\"iron\",state=\"pending\"}) by (account)''"
    by (simp add: range_queries_def ranged_def)
  from other_unit_omits_window [OF 1, of fixed_zone_day_offset 1700000000000] obtain url where
    "build_url fixed_zone_day_offset 1700000000000 ?q True = Inr url"
    "base url = query_range_endpoint" "search url = [(''query'', query ?q)]"
    by blast
  then have "build_url fixed_zone_day_offset 1700000000000 ?q True
     = Inr \<lparr>base = query_range_endpoint,
            search = [(''query'',
              ''sum(slurm_job_seconds{cluster=\"iron\",state=\"pending\"}) by (account)'')]\<rparr>"
    by (cases url) (simp add: 2)
  with 1 show ?thesis by simp
qed

section \<open>The response\<close>

text \<open>
  Claim C8. For the success envelope with the one series
  \<open>{metric: {cluster: "x"}, value: [1700000000, "4"]}\<close> the chain, and with it the
  promise of \<open>fetch_prometheus_data\<close>, is fulfilled with the list of exactly that
  series.
\<close>

theorem success_envelope_roundtrip:
  "then_catch (Inr (Val (JObj [(''status'', JStr ''success''),
      (''data'', JObj [(''result'',
         JArr [JObj [(''metric'', JObj [(''cluster'', JStr ''x'')]),
                     (''value'', JArr [JNum ''1700000000'', JStr ''4''])]])])])))
   = Val (JArr [JObj [(''metric'', JObj [(''cluster'', JStr ''x'')]),
                      (''value'', JArr [JNum ''1700000000'', JStr ''4''])]])
   \<and> fetch_prometheus_data
       (uniform_world (Inr (Val (JObj [(''status'', JStr ''success''),
          (''data'', JObj [(''result'',
             JArr [JObj [(''metric'', JObj [(''cluster'', JStr ''x'')]),
                         (''value'', JArr [JNum ''1700000000'', JStr ''4''])]])])]))))
       0 (queries ! 0) False
   = Inr (Val (JArr [JObj [(''metric'', JObj [(''cluster'', JStr ''x'')]),
                           (''value'', JArr [JNum ''1700000000'', JStr ''4''])]]))"
  by (simp add: then_catch_def then_handler_def uniform_world_def fetch_example_instant)

text \<open>
  Claim C7, as stated, fails: for the body \<open>{status: "error", error: "bad query"}\<close>
  the promise of \<open>fetch_prometheus_data\<close> is fulfilled with \<open>undefined\<close>, which is
  no error and holds no message.
\<close>

theorem service_error_result_undefined:
  "fetch_prometheus_data (uniform_world (Inr (error_envelope ''bad query''))) 0 (queries ! 0) False
     = Inr Undefined
   \<and> then_catch (Inr (Val (JObj [(''status'', JStr ''error''), (''error'', JStr ''bad query'')])))
     = Undefined"
  by (simp add: uniform_world_def fetch_example_instant error_envelope_def
      then_catch_def then_handler_def catch_handler_def template_string_def)

text \<open>
  Claim C7, amended. For every response body with \<open>status == "error"\<close> the
  \<open>then\<close> callback throws, the \<open>catch\<close> callback swallows what is thrown, and the
  promise of \<open>fetch_prometheus_data\<close> is fulfilled with \<open>undefined\<close>; when the
  \<open>error\<close> field is a string, what is thrown is an \<open>Error\<close> whose message is
  \<open>Prometheus error: \<close> followed by that string.
\<close>

theorem service_error_swallowed:
  assumes "get_prop body ''status'' = Inr (Val (JStr ''error''))"
  shows "(\<exists>err. then_handler body = Inl err)
    \<and> (\<forall>msg. get_prop body ''error'' = Inr (Val (JStr msg))
          \<longrightarrow> then_handler body = Inl (Error (''Prometheus error: '' @ msg)))
    \<and> then_catch (Inr body) = Undefined
    \<and> (build_url (zone_day_offset w) (clock w i) q r = Inr url \<longrightarrow> d3_json w i url = Inr body
        \<longrightarrow> fetch_prometheus_data w i q r = Inr Undefined)"
proof -
  have thrown: "\<exists>err. then_handler body = Inl err"
    using assms by (simp add: then_handler_def split: sum.splits)
  then have "then_catch (Inr body) = Undefined"
    by (auto simp: then_catch_def catch_handler_def)
  moreover have "then_handler body = Inl (Error (''Prometheus error: '' @ msg))"
    if "get_prop body ''error'' = Inr (Val (JStr msg))" for msg
    using assms that by (simp add: then_handler_def template_string_def)
  ultimately show ?thesis
    using thrown by (simp add: fetch_prometheus_data_def)
qed

text \<open>
  Witness of C7, amended: the body \<open>{status: "error", error: "bad query"}\<close> as
  the answer to the first instant query.
\<close>

theorem service_error_swallowed_witness:
  "get_prop (error_envelope ''bad query'') ''status'' = Inr (Val (JStr ''error''))
   \<and> get_prop (error_envelope ''bad query'') ''error'' = Inr (Val (JStr ''bad query''))
   \<and> build_url (zone_day_offset (uniform_world (Inr (error_envelope ''bad query''))))
        (clock (uniform_world (Inr (error_envelope ''bad query''))) 0) (queries ! 0) False
       = Inr \<lparr>base = query_endpoint, search = [(''query'', query (queries ! 0))]\<rparr>
   \<and> d3_json (uniform_world (Inr (error_envelope ''bad query''))) 0
        \<lparr>base = query_endpoint, search = [(''query'', query (queries ! 0))]\<rparr>
       = Inr (error_envelope ''bad query'')
   \<and> then_handler (error_envelope ''bad query'') = Inl (Error ''Prometheus error: bad query'')
   \<and> then_catch (Inr (error_envelope ''bad query'')) = Undefined
   \<and> fetch_prometheus_data (uniform_world (Inr (error_envelope ''bad query''))) 0 (queries ! 0) False
       = Inr Undefined"
proof -
  let ?w = "uniform_world (Inr (error_envelope ''bad query''))"
  let ?u = "\<lparr>base = query_endpoint, search = [(''query'', query (queries ! 0))]\<rparr>"
  have 1: "get_prop (error_envelope ''bad query'') ''status'' = Inr (Val (JStr ''error''))"
    and 2: "get_prop (error_envelope ''bad query'') ''error'' = Inr (Val (JStr ''bad query''))"
    by (simp_all add: error_envelope_def)
  have 3: "build_url (zone_day_offset ?w) (clock ?w 0) (queries ! 0) False = Inr ?u"
    by (rule build_url_instant)
  have 4: "d3_json ?w 0 ?u = Inr (error_envelope ''bad query'')"
    by (simp add: uniform_world_def example_world_def)
  from service_error_swallowed [OF 1, of ?w 0 "queries ! 0" False ?u] 2 3 4
  have "then_handler (error_envelope ''bad query'') = Inl (Error ''Prometheus error: bad query'')"
    and "then_catch (Inr (error_envelope ''bad query'')) = Undefined"
    and "fetch_prometheus_data ?w 0 (queries ! 0) False = Inr Undefined"
    by simp_all
  with 1 2 3 4 show ?thesis by blast
qed

section \<open>The aggregated result\<close>

text \<open>
  Claim C1, as stated, fails in the part about the error: the entry of a failed
  query is \<open>{query, data: undefined}\<close> and the whole result is the same whatever
  message the service sent, so no entry carries the error.
\<close>

theorem failed_entry_has_no_error:
  "fetch_all_prometheus_data (one_failure_world 2 ''bad query'') [0, 1, 2, 3, 4, 5, 6, 7, 8]
     = fetch_all_prometheus_data (one_failure_world 2 ''query timed out'') [0, 1, 2, 3, 4, 5, 6, 7, 8]
   \<and> App_data_signal (one_failure_world 2 ''bad query'') [0, 1, 2, 3, 4, 5, 6, 7, 8] ! 2
     = \<lparr>entry_query = queries ! 2, entry_data = Undefined\<rparr>"
  by (simp add: run_defs App_data_signal_def one_failure_world_def)

text \<open>
  Claim C1, amended. For catalogue lists of \<open>N\<close> instant and \<open>M\<close> range
  definitions, if the fetch of one instant definition is answered with an error
  envelope and every other request is built and answered with a body from which the
  \<open>then\<close> callback returns \<open>results i\<close>, then once all promises have settled the
  result is fulfilled with \<open>N + M\<close> entries; the entry of the failed query holds
  that query (so its name) and \<open>undefined\<close> as data, and every other entry holds
  its own query and its own results.
\<close>

theorem failure_isolation:
  assumes settle: "all_settle (length qs + length rqs) sched"
    and j: "j < length qs"
    and failed: "d3_json w j \<lparr>base = query_endpoint, search = [(''query'', query (qs ! j))]\<rparr> = Inr body"
      "get_prop body ''status'' = Inr (Val (JStr ''error''))"
    and others: "\<forall>i<length qs + length rqs. i \<noteq> j \<longrightarrow>
        (\<exists>url b. build_url (zone_day_offset w) (clock w i) ((qs @ rqs) ! i) (length qs \<le> i) = Inr url
                \<and> d3_json w i url = Inr b \<and> then_handler b = Inr (results i))"
  shows "\<exists>es. fetch_all_on qs rqs w sched = Fulfilled es
      \<and> length es = length qs + length rqs
      \<and> es ! j = \<lparr>entry_query = qs ! j, entry_data = Undefined\<rparr>
      \<and> (\<forall>i<length qs + length rqs. i \<noteq> j \<longrightarrow>
            es ! i = \<lparr>entry_query = (qs @ rqs) ! i, entry_data = results i\<rparr>)"
proof -
  have build: "\<forall>k<length rqs. can_build w (length qs + k) (rqs ! k)"
  proof (intro allI impI)
    fix k assume k: "k < length rqs"
    let ?i = "length qs + k"
    from k j have "?i < length qs + length rqs" "?i \<noteq> j" by simp_all
    with others obtain url where
      "build_url (zone_day_offset w) (clock w ?i) ((qs @ rqs) ! ?i) (length qs \<le> ?i) = Inr url"
      by blast
    then have "build_url (zone_day_offset w) (clock w ?i) (rqs ! k) True = Inr url"
      by (simp add: nth_append)
    then show "can_build w ?i (rqs ! k)" by (rule build_url_Inr_can_build)
  qed
  from fetch_all_on_fulfilled [OF build settle] obtain es where
    es: "fetch_all_on qs rqs w sched = Fulfilled es"
    and qs: "map entry_query es = qs @ rqs"
    and data: "\<forall>i<length es.
      fetch_prometheus_data w i (entry_query (es ! i)) (length qs \<le> i) = Inr (entry_data (es ! i))"
    by blast
  from qs have len: "length es = length qs + length rqs"
    by (metis length_append length_map)
  have query_at: "entry_query (es ! i) = (qs @ rqs) ! i" if "i < length es" for i
    using that qs by (metis nth_map)
  have "es ! j = \<lparr>entry_query = qs ! j, entry_data = Undefined\<rparr>"
  proof -
    from j len have jl: "j < length es" by simp
    with query_at [of j] j have q: "entry_query (es ! j) = qs ! j"
      by (simp add: nth_append)
    have "fetch_prometheus_data w j (qs ! j) False = Inr Undefined"
      using failed
      by (simp add: fetch_prometheus_data_def build_url_instant then_catch_not_success)
    moreover from data jl have
      "fetch_prometheus_data w j (entry_query (es ! j)) (length qs \<le> j) = Inr (entry_data (es ! j))"
      by blast
    moreover from j have "(length qs \<le> j) = False" by simp
    ultimately have "entry_data (es ! j) = Undefined" by (simp add: q)
    with q show ?thesis by (cases "es ! j") simp
  qed
  moreover have "es ! i = \<lparr>entry_query = (qs @ rqs) ! i, entry_data = results i\<rparr>"
    if i: "i < length qs + length rqs" "i \<noteq> j" for i
  proof -
    from i len have il: "i < length es" by simp
    from others i obtain url b where
      u: "build_url (zone_day_offset w) (clock w i) ((qs @ rqs) ! i) (length qs \<le> i) = Inr url"
      and b: "d3_json w i url = Inr b" "then_handler b = Inr (results i)"
      by blast
    then have "fetch_prometheus_data w i ((qs @ rqs) ! i) (length qs \<le> i) = Inr (results i)"
      by (simp add: fetch_prometheus_data_def then_catch_result)
    moreover from data il have
      "fetch_prometheus_data w i (entry_query (es ! i)) (length qs \<le> i) = Inr (entry_data (es ! i))"
      by blast
    ultimately have "entry_data (es ! i) = results i" by (simp add: query_at [OF il])
    with query_at [OF il] show ?thesis by (cases "es ! i") simp
  qed
  ultimately show ?thesis using es len by blast
qed

text \<open>
  Witness of C1, amended: the catalogue of the source, the third instant query
  failing, the promises settling out of order.
\<close>

theorem failure_isolation_witness:
  "all_settle (length queries + length range_queries) [4, 8, 0, 2, 6, 1, 7, 3, 5]
   \<and> 2 < length queries
   \<and> d3_json (one_failure_world 2 ''bad query'') 2
        \<lparr>base = query_endpoint, search = [(''query'', query (queries ! 2))]\<rparr>
       = Inr (error_envelope ''bad query'')
   \<and> get_prop (error_envelope ''bad query'') ''status'' = Inr (Val (JStr ''error''))
   \<and> (\<exists>es. fetch_all_on queries range_queries (one_failure_world 2 ''bad query'')
              [4, 8, 0, 2, 6, 1, 7, 3, 5] = Fulfilled es
         \<and> length es = 9
         \<and> es ! 2 = \<lparr>entry_query = queries ! 2, entry_data = Undefined\<rparr>
         \<and> es ! 0 = \<lparr>entry_query = queries ! 0, entry_data = Val (JArr [sample_series 0])\<rparr>
         \<and> es ! 8 = \<lparr>entry_query = range_queries ! 2, entry_data = Val (JArr [sample_series 8])\<rparr>)"
proof -
  let ?w = "one_failure_world 2 ''bad query''"
  let ?s = "[4, 8, 0, 2, 6, 1, 7, 3, 5] :: nat list"
  have 1: "all_settle (length queries + length range_queries) ?s"
    unfolding catalogue_length by code_simp
  have 2: "(2::nat) < length queries"
    by (simp add: catalogue_length)
  have 3: "d3_json ?w 2 \<lparr>base = query_endpoint, search = [(''query'', query (queries ! 2))]\<rparr>
      = Inr (error_envelope ''bad query'')"
    by (simp add: one_failure_world_def example_world_def)
  have 4: "get_prop (error_envelope ''bad query'') ''status'' = Inr (Val (JStr ''error''))"
    by (simp add: error_envelope_def)
  have 5: "\<forall>i<length queries + length range_queries. i \<noteq> 2 \<longrightarrow>
        (\<exists>url b. build_url (zone_day_offset ?w) (clock ?w i) ((queries @ range_queries) ! i)
                    (length queries \<le> i) = Inr url
                \<and> d3_json ?w i url = Inr b \<and> then_handler b = Inr (Val (JArr [sample_series i])))"
  proof (intro allI impI)
    fix i :: nat
    assume i: "i < length queries + length range_queries" "i \<noteq> 2"
    have "length queries \<le> i \<longrightarrow> can_build ?w i ((queries @ range_queries) ! i)"
    proof
      assume le: "length queries \<le> i"
      with i have "i - length queries < length range_queries" by simp
      with catalogue_can_build [of ?w]
      have "can_build ?w (length queries + (i - length queries))
              (range_queries ! (i - length queries))"
        by blast
      with le show "can_build ?w i ((queries @ range_queries) ! i)"
        by (simp add: nth_append)
    qed
    from build_url_ok [OF this] obtain url where
      "build_url (zone_day_offset ?w) (clock ?w i) ((queries @ range_queries) ! i)
         (length queries \<le> i) = Inr url"
      by blast
    moreover from i have "d3_json ?w i url = Inr (success_envelope [sample_series i])"
      by (simp add: one_failure_world_def example_world_def)
    moreover have "then_handler (success_envelope [sample_series i])
        = Inr (Val (JArr [sample_series i]))"
      by (simp add: success_envelope_def then_handler_def)
    ultimately show "\<exists>url b.
        build_url (zone_day_offset ?w) (clock ?w i) ((queries @ range_queries) ! i)
          (length queries \<le> i) = Inr url
        \<and> d3_json ?w i url = Inr b \<and> then_handler b = Inr (Val (JArr [sample_series i]))"
      by blast
  qed
  from failure_isolation [OF 1 2 3 4 5] obtain es where
    "fetch_all_on queries range_queries ?w ?s = Fulfilled es"
    "length es = length queries + length range_queries"
    "es ! 2 = \<lparr>entry_query = queries ! 2, entry_data = Undefined\<rparr>"
    "\<forall>i<length queries + length range_queries. i \<noteq> 2 \<longrightarrow>
       es ! i = \<lparr>entry_query = (queries @ range_queries) ! i, entry_data = Val (JArr [sample_series i])\<rparr>"
    by blast
  then have "fetch_all_on queries range_queries ?w ?s = Fulfilled es \<and> length es = 9
      \<and> es ! 2 = \<lparr>entry_query = queries ! 2, entry_data = Undefined\<rparr>
      \<and> es ! 0 = \<lparr>entry_query = queries ! 0, entry_data = Val (JArr [sample_series 0])\<rparr>
      \<and> es ! 8 = \<lparr>entry_query = range_queries ! 2, entry_data = Val (JArr [sample_series 8])\<rparr>"
    by (simp add: catalogue_length nth_append)
  with 1 2 3 4 show ?thesis by blast
qed

text \<open>
  Claim C2. Whatever the outcome of each request (success, no connection, error
  envelope, undecodable body), the promise of \<open>fetch_all_prometheus_data\<close> is never
  rejected, and once all nine promises have settled it is fulfilled with nine
  entries.
\<close>

theorem fetch_all_always_resolves:
  "fetch_all_prometheus_data w sched \<noteq> Rejected e
   \<and> (all_settle 9 sched \<longrightarrow>
        (\<exists>es. fetch_all_prometheus_data w sched = Fulfilled es \<and> length es = 9))"
proof (intro conjI impI)
  show "fetch_all_prometheus_data w sched \<noteq> Rejected e"
    unfolding fetch_all_prometheus_data_def
    by (rule fetch_all_on_not_rejected [OF catalogue_can_build])
next
  assume "all_settle 9 sched"
  then have "all_settle (length queries + length range_queries) sched"
    by (simp add: catalogue_length)
  from fetch_all_on_fulfilled [OF catalogue_can_build this] obtain es where
    "fetch_all_prometheus_data w sched = Fulfilled es"
    "map entry_query es = queries @ range_queries"
    unfolding fetch_all_prometheus_data_def by blast
  moreover from this have "length es = length (queries @ range_queries)"
    by (metis length_map)
  then have "length es = 9" by (simp add: catalogue_length)
  ultimately show "\<exists>es. fetch_all_prometheus_data w sched = Fulfilled es \<and> length es = 9"
    by blast
qed

text \<open>
  Witness of C2: the four outcomes in turn, settling out of order.
\<close>

theorem fetch_all_always_resolves_witness:
  "all_settle 9 [8, 3, 1, 0, 2, 7, 6, 5, 4]
   \<and> fetch_all_prometheus_data mixed_world [8, 3, 1, 0, 2, 7, 6, 5, 4]
       \<noteq> Rejected (TypeError ''Failed to fetch'')
   \<and> (\<exists>es. fetch_all_prometheus_data mixed_world [8, 3, 1, 0, 2, 7, 6, 5, 4] = Fulfilled es
          \<and> length es = 9)"
  using fetch_all_always_resolves
    [of mixed_world "[8, 3, 1, 0, 2, 7, 6, 5, 4]" "TypeError ''Failed to fetch''"]
    all_settle_9
  by blast

text \<open>
  Claim C4. For any two orders in which the nine promises settle the result is the
  same: the entries are in catalogue order, the six instant definitions and then
  the three range definitions, and the entry at position \<open>i\<close> holds the data of the
  \<open>i\<close>-th fetch.
\<close>

theorem fetch_all_order_independent:
  assumes "all_settle 9 s1" and "all_settle 9 s2"
  shows "fetch_all_prometheus_data w s1 = fetch_all_prometheus_data w s2
    \<and> (\<exists>es. fetch_all_prometheus_data w s1 = Fulfilled es
          \<and> map entry_query es = queries @ range_queries
          \<and> (\<forall>i<9. fetch_prometheus_data w i (entry_query (es ! i)) (6 \<le> i)
                        = Inr (entry_data (es ! i))))"
proof -
  from fetch_all_on_schedules [OF catalogue_can_build] obtain es where
    qs: "map entry_query es = queries @ range_queries"
    and data: "\<forall>i<length es.
      fetch_prometheus_data w i (entry_query (es ! i)) (length queries \<le> i) = Inr (entry_data (es ! i))"
    and run: "\<forall>sched. all_settle (length queries + length range_queries) sched \<longrightarrow>
      fetch_all_on queries range_queries w sched = Fulfilled es"
    by blast
  from qs have "length es = length (queries @ range_queries)"
    by (metis length_map)
  then have len: "length es = 9" by (simp add: catalogue_length)
  from run assms have "fetch_all_prometheus_data w s1 = Fulfilled es"
    and "fetch_all_prometheus_data w s2 = Fulfilled es"
    by (simp_all add: fetch_all_prometheus_data_def catalogue_length)
  moreover from data len have
    "\<forall>i<9. fetch_prometheus_data w i (entry_query (es ! i)) (6 \<le> i) = Inr (entry_data (es ! i))"
    by (simp add: catalogue_length)
  ultimately show ?thesis using qs by simp
qed

text \<open>
  Witness of C4: the promises settling in catalogue order and in the reverse
  order.
\<close>

theorem fetch_all_order_independent_witness:
  "all_settle 9 [0, 1, 2, 3, 4, 5, 6, 7, 8] \<and> all_settle 9 [8, 7, 6, 5, 4, 3, 2, 1, 0]
   \<and> fetch_all_prometheus_data mixed_world [0, 1, 2, 3, 4, 5, 6, 7, 8]
     = fetch_all_prometheus_data mixed_world [8, 7, 6, 5, 4, 3, 2, 1, 0]
   \<and> (\<exists>es. fetch_all_prometheus_data mixed_world [0, 1, 2, 3, 4, 5, 6, 7, 8] = Fulfilled es
          \<and> map entry_query es = queries @ range_queries)"
  using fetch_all_order_independent
    [of "[0, 1, 2, 3, 4, 5, 6, 7, 8]" "[8, 7, 6, 5, 4, 3, 2, 1, 0]" mixed_world]
    all_settle_9
  by blast

text \<open>
  Claim C10. Once all nine promises have settled, the result is fulfilled with
  exactly nine entries whose queries are the catalogue definitions in order,
  however many fetches failed; \<open>App\<close> stores them in \<open>data_signal\<close>, so
  \<open>data_loaded_signal\<close> is true.
\<close>

theorem loaded_after_cycle:
  assumes "all_settle 9 sched"
  shows "\<exists>es. fetch_all_prometheus_data w sched = Fulfilled es
      \<and> length es = 9
      \<and> map entry_query es = queries @ range_queries
      \<and> App_data_signal w sched = es
      \<and> data_loaded_signal (App_data_signal w sched)"
proof -
  from assms have "all_settle (length queries + length range_queries) sched"
    by (simp add: catalogue_length)
  from fetch_all_on_fulfilled [OF catalogue_can_build this] obtain es where
    es: "fetch_all_prometheus_data w sched = Fulfilled es"
    and qs: "map entry_query es = queries @ range_queries"
    unfolding fetch_all_prometheus_data_def by blast
  from qs have "length es = length (queries @ range_queries)"
    by (metis length_map)
  then have len: "length es = 9" by (simp add: catalogue_length)
  from es have "App_data_signal w sched = es"
    by (simp add: App_data_signal_def)
  with es qs len show ?thesis by (simp add: data_loaded_signal_def)
qed

text \<open>
  Witness of C10: every request fails without a connection; the nine entries all
  hold \<open>undefined\<close> and the signal is true.
\<close>

theorem loaded_after_cycle_witness:
  "all_settle 9 [0, 1, 2, 3, 4, 5, 6, 7, 8]
   \<and> (\<exists>es. fetch_all_prometheus_data (uniform_world (Inl (TypeError ''Failed to fetch'')))
              [0, 1, 2, 3, 4, 5, 6, 7, 8] = Fulfilled es
         \<and> length es = 9
         \<and> map entry_query es = queries @ range_queries)
   \<and> map entry_data (App_data_signal (uniform_world (Inl (TypeError ''Failed to fetch'')))
        [0, 1, 2, 3, 4, 5, 6, 7, 8]) = replicate 9 Undefined
   \<and> data_loaded_signal (App_data_signal (uniform_world (Inl (TypeError ''Failed to fetch'')))
        [0, 1, 2, 3, 4, 5, 6, 7, 8])"
proof -
  let ?w = "uniform_world (Inl (TypeError ''Failed to fetch''))"
  have 1: "all_settle 9 [0, 1, 2, 3, 4, 5, 6, 7, 8]"
    by (rule all_settle_9)
  have 2: "map entry_data (App_data_signal ?w [0, 1, 2, 3, 4, 5, 6, 7, 8]) = replicate 9 Undefined"
    by (simp add: run_defs App_data_signal_def uniform_world_def numeral_nat)
  from loaded_after_cycle [OF 1, of ?w] 1 2 show ?thesis by blast
qed

end
